theory Spec2Isabelle
  imports Main
begin

section \<open>Host-language values\<close>

text \<open>
  \<open>WebScraperService\<close> is JavaScript. Its extraction methods wrap their body in
  \<^verbatim>\<open>try { ... } catch (error) { console.error(...); throw error; }\<close>, so whatever a
  library call throws leaves the method unchanged. An exception is a value of \<open>exn\<close>;
  a method returns \<open>exn + 'a\<close>, with \<open>Inl\<close> for the exception.
\<close>

datatype exn = SyntaxError string | TypeError string

text \<open>
  An attribute getter returns a string or \<^verbatim>\<open>undefined\<close>: \<open>string option\<close>, with \<open>None\<close>
  for \<^verbatim>\<open>undefined\<close>. In a condition and under \<^verbatim>\<open>||\<close> the empty string counts as false,
  like \<^verbatim>\<open>undefined\<close>.
\<close>

definition truthy :: "string option \<Rightarrow> bool" where
  "truthy v = (case v of None \<Rightarrow> False | Some s \<Rightarrow> s \<noteq> [])"

definition js_or :: "string option \<Rightarrow> string option \<Rightarrow> string option" where
  "js_or a b = (if truthy a then a else b)"

definition or_empty :: "string option \<Rightarrow> string" where
  \<comment> \<open>\<^verbatim>\<open>v || ''\<close>\<close>
  "or_empty v = (case v of None \<Rightarrow> [] | Some s \<Rightarrow> s)"

definition or_null :: "string option \<Rightarrow> string option" where
  \<comment> \<open>\<^verbatim>\<open>v || null\<close>; \<open>None\<close> is \<^verbatim>\<open>null\<close> in the result\<close>
  "or_null v = (if truthy v then v else None)"

definition startsWith :: "string \<Rightarrow> string \<Rightarrow> bool" where
  "startsWith s p = (take (length p) s = p)"

text \<open>
  \<^verbatim>\<open>String.prototype.trim\<close> strips white space and line terminators from both ends:
  the code points U+0009 to U+000D, U+0020, U+00A0, U+1680, U+2000 to U+200A, U+2028,
  U+2029, U+202F, U+205F, U+3000 and U+FEFF. Strings are lists of bytes here, the UTF-8
  encoding of the text, so a code point of this set is a sequence of one to three bytes,
  and \<open>white_space\<close> lists the sequences. In well-formed UTF-8 a string starts (ends)
  with one of the sequences exactly when its first (last) code point is in the set.
\<close>

definition white_space :: "string list" where
  "white_space =
     [[CHR 0x09], [CHR 0x0A], [CHR 0x0B], [CHR 0x0C], [CHR 0x0D], [CHR 0x20],
      [CHR 0xC2, CHR 0xA0],
      [CHR 0xE1, CHR 0x9A, CHR 0x80],
      [CHR 0xE2, CHR 0x80, CHR 0x80], [CHR 0xE2, CHR 0x80, CHR 0x81],
      [CHR 0xE2, CHR 0x80, CHR 0x82], [CHR 0xE2, CHR 0x80, CHR 0x83],
      [CHR 0xE2, CHR 0x80, CHR 0x84], [CHR 0xE2, CHR 0x80, CHR 0x85],
      [CHR 0xE2, CHR 0x80, CHR 0x86], [CHR 0xE2, CHR 0x80, CHR 0x87],
      [CHR 0xE2, CHR 0x80, CHR 0x88], [CHR 0xE2, CHR 0x80, CHR 0x89],
      [CHR 0xE2, CHR 0x80, CHR 0x8A],
      [CHR 0xE2, CHR 0x80, CHR 0xA8], [CHR 0xE2, CHR 0x80, CHR 0xA9],
      [CHR 0xE2, CHR 0x80, CHR 0xAF],
      [CHR 0xE2, CHR 0x81, CHR 0x9F],
      [CHR 0xE3, CHR 0x80, CHR 0x80],
      [CHR 0xEF, CHR 0xBB, CHR 0xBF]]"

definition leading :: "string list \<Rightarrow> string \<Rightarrow> nat" where
  \<comment> \<open>the length of the first sequence of \<open>ws\<close> that \<open>s\<close> starts with, 0 if there is none\<close>
  "leading ws s =
     (case find (\<lambda>w. w \<noteq> [] \<and> take (length w) s = w) ws of
        None \<Rightarrow> 0
      | Some w \<Rightarrow> length w)"

function strip :: "string list \<Rightarrow> string \<Rightarrow> string" where
  "strip ws s = (if leading ws s = 0 then s else strip ws (drop (leading ws s) s))"
  by pat_completeness auto
termination
proof (relation "measure (\<lambda>(ws, s). length s)")
  show "wf (measure (\<lambda>(ws, s). length s))" by simp
next
  fix ws :: "string list" and s :: string
  assume "leading ws s \<noteq> 0"
  then obtain w where "find (\<lambda>w. w \<noteq> [] \<and> take (length w) s = w) ws = Some w"
    and l: "leading ws s = length w"
    by (auto simp: leading_def split: option.splits)
  then have "w \<noteq> []" "take (length w) s = w"
    by (auto simp: find_Some_iff)
  then have "s \<noteq> []" by auto
  with l \<open>w \<noteq> []\<close> show "((ws, drop (leading ws s) s), (ws, s)) \<in> measure (\<lambda>(ws, s). length s)"
    by simp
qed

declare strip.simps [simp del]

definition trim :: "string \<Rightarrow> string" where
  \<comment> \<open>strip at the start, then, on the reversed string, at the end\<close>
  "trim s = rev (strip (map rev white_space) (rev (strip white_space s)))"

section \<open>The two libraries the service calls\<close>

text \<open>
  The service sees a matched element only through \<^verbatim>\<open>$(el).attr(name)\<close>,
  \<^verbatim>\<open>$(el).text()\<close> and \<^verbatim>\<open>$(el).html()\<close>. An element is the record of these three
  observations: its attributes, its text content and its inner markup.
\<close>

record element =
  attribs :: "string \<rightharpoonup> string"
  el_text :: string
  el_html :: string

text \<open>
  \<^verbatim>\<open>cheerio.load(html)\<close> yields the query function \<^verbatim>\<open>$\<close>; \<open>load L html sel\<close> is the
  node-set \<^verbatim>\<open>$(sel)\<close> in document order, or the exception the selector engine throws for
  a selector it cannot parse. \<open>new_url L u b\<close> is \<^verbatim>\<open>new URL(u, b).href\<close>, or the
  exception the constructor throws. Both are parameters of the model: every theorem
  below holds for any parser, selector engine and URL implementation.
\<close>

record lib =
  load :: "string \<Rightarrow> string \<Rightarrow> exn + element list"
  new_url :: "string \<Rightarrow> string \<Rightarrow> exn + string"

text \<open>
  The getters of a node-set, as the query library documents them: \<^verbatim>\<open>.text()\<close> is the
  combined text of all its elements; \<^verbatim>\<open>.attr(name)\<close> reads the first element and is
  \<^verbatim>\<open>undefined\<close> on an empty set or a missing attribute; \<^verbatim>\<open>.html()\<close> is the inner
  markup of the first element and \<^verbatim>\<open>null\<close> on an empty set; \<^verbatim>\<open>.each(f)\<close> calls
  \<open>f\<close> on the elements in order. A callback that pushes to an array is a function from
  the array to the new array, and an exception inside it ends the iteration. The
  callbacks of the service return nothing, so the iteration never stops early otherwise.
\<close>

definition attr :: "element list \<Rightarrow> string \<Rightarrow> string option" where
  "attr es name = (case es of [] \<Rightarrow> None | e # _ \<Rightarrow> attribs e name)"

definition text_of :: "element list \<Rightarrow> string" where
  "text_of es = concat (map el_text es)"

definition html_of :: "element list \<Rightarrow> string option" where
  "html_of es = (case es of [] \<Rightarrow> None | e # _ \<Rightarrow> Some (el_html e))"

fun each :: "('a \<Rightarrow> 's \<Rightarrow> exn + 's) \<Rightarrow> 'a list \<Rightarrow> 's \<Rightarrow> exn + 's" where
  "each f [] s = Inr s"
| "each f (x # xs) s = (case f x s of Inl err \<Rightarrow> Inl err | Inr s' \<Rightarrow> each f xs s')"

section \<open>extractText\<close>

text \<open>
  The second argument is a selector string, an object of selectors, or anything else
  (for which the method returns \<^verbatim>\<open>null\<close>). An object is its list of own properties in
  enumeration order.
\<close>

datatype selectors = Selector string | Selectors "(string \<times> string) list" | NoSelectors

datatype extracted = Text string | Texts "string \<rightharpoonup> string" | Null

text \<open>
  The result object starts as \<^verbatim>\<open>{}\<close> and is modelled by its own properties.
  \<^verbatim>\<open>result[key] = v\<close> creates or overwrites the own property \<open>key\<close>, except for the
  key \<^verbatim>\<open>__proto__\<close>: that assignment goes to the setter the object inherits from
  \<^verbatim>\<open>Object.prototype\<close>, which creates no own property (it ignores a string and
  \<^verbatim>\<open>undefined\<close>, and makes an object or \<^verbatim>\<open>null\<close> the prototype of the result). No
  other assignment of the loop depends on the prototype: a mapping has the key once.
\<close>

definition assign :: "(string \<rightharpoonup> 'v) \<Rightarrow> string \<Rightarrow> 'v \<Rightarrow> (string \<rightharpoonup> 'v)" where
  "assign result key v = (if key = ''__proto__'' then result else result(key \<mapsto> v))"

fun text_fields ::
  "(string \<Rightarrow> exn + element list) \<Rightarrow> (string \<times> string) list \<Rightarrow> (string \<rightharpoonup> string)
   \<Rightarrow> exn + (string \<rightharpoonup> string)" where
  "text_fields dollar [] result = Inr result"
| "text_fields dollar ((key, sel) # rest) result =
     (case dollar sel of
        Inl err \<Rightarrow> Inl err
      | Inr es \<Rightarrow> text_fields dollar rest (assign result key (trim (text_of es))))"

definition extractText :: "lib \<Rightarrow> string \<Rightarrow> selectors \<Rightarrow> exn + extracted" where
  "extractText L html selectors =
     (let dollar = load L html in
      case selectors of
        Selector sel \<Rightarrow>
          (case dollar sel of Inl err \<Rightarrow> Inl err | Inr es \<Rightarrow> Inr (Text (trim (text_of es))))
      | Selectors props \<Rightarrow>
          (case text_fields dollar props Map.empty of
             Inl err \<Rightarrow> Inl err | Inr result \<Rightarrow> Inr (Texts result))
      | NoSelectors \<Rightarrow> Inr Null)"

section \<open>extractImages and extractLinks\<close>

record image =
  url :: string
  alt :: string
  width :: "string option"
  height :: "string option"

record link =
  link_url :: string
  link_text :: string

text \<open>
  The callback of \<^verbatim>\<open>$(selector).each\<close> in \<open>extractImages\<close>: \<open>images\<close> is the array
  built so far. The source's three statements are kept in their order: read the URL,
  resolve it, push the record.
\<close>

definition resolve :: "lib \<Rightarrow> string \<Rightarrow> string option \<Rightarrow> exn + string option" where
  \<comment> \<open>\<^verbatim>\<open>if (u && u.startsWith('/') && baseUrl) u = new URL(u, baseUrl).href\<close>\<close>
  "resolve L baseUrl u =
     (case u of
        None \<Rightarrow> Inr None
      | Some s \<Rightarrow>
          if s \<noteq> [] \<and> startsWith s ''/'' \<and> baseUrl \<noteq> []
          then (case new_url L s baseUrl of Inl err \<Rightarrow> Inl err | Inr h \<Rightarrow> Inr (Some h))
          else Inr (Some s))"

definition image_callback :: "lib \<Rightarrow> string \<Rightarrow> element \<Rightarrow> image list \<Rightarrow> exn + image list" where
  "image_callback L baseUrl el images =
     (case resolve L baseUrl (js_or (attr [el] ''src'') (attr [el] ''data-src'')) of
        Inl err \<Rightarrow> Inl err
      | Inr imageUrl \<Rightarrow>
          (case imageUrl of
             None \<Rightarrow> Inr images
           | Some u \<Rightarrow>
               if u \<noteq> []
               then Inr (images @ [\<lparr>url = u,
                                    alt = or_empty (attr [el] ''alt''),
                                    width = or_null (attr [el] ''width''),
                                    height = or_null (attr [el] ''height'')\<rparr>])
               else Inr images))"

definition extractImages :: "lib \<Rightarrow> string \<Rightarrow> string \<Rightarrow> string \<Rightarrow> exn + image list" where
  "extractImages L html selector baseUrl =
     (case load L html selector of
        Inl err \<Rightarrow> Inl err
      | Inr es \<Rightarrow> each (image_callback L baseUrl) es [])"

definition link_callback :: "lib \<Rightarrow> string \<Rightarrow> element \<Rightarrow> link list \<Rightarrow> exn + link list" where
  "link_callback L baseUrl el links =
     (case resolve L baseUrl (attr [el] ''href'') of
        Inl err \<Rightarrow> Inl err
      | Inr href \<Rightarrow>
          (case href of
             None \<Rightarrow> Inr links
           | Some u \<Rightarrow>
               if u \<noteq> []
               then Inr (links @ [\<lparr>link_url = u, link_text = trim (text_of [el])\<rparr>])
               else Inr links))"

definition extractLinks :: "lib \<Rightarrow> string \<Rightarrow> string \<Rightarrow> string \<Rightarrow> exn + link list" where
  "extractLinks L html selector baseUrl =
     (case load L html selector of
        Inl err \<Rightarrow> Inl err
      | Inr es \<Rightarrow> each (link_callback L baseUrl) es [])"

section \<open>extractStructuredData\<close>

text \<open>
  A field of the mapping is a selector string or an object with the properties
  \<^verbatim>\<open>selector\<close>, \<^verbatim>\<open>type\<close> and \<^verbatim>\<open>attr\<close>, each of which may be missing (\<open>None\<close>). The
  specification calls the \<^verbatim>\<open>type\<close> property the mode and the \<^verbatim>\<open>attr\<close> property the
  attribute name. The mapping is the list of its own properties in enumeration order; a
  JavaScript object has each key once. A property value that is neither a string nor an
  object (a number, \<^verbatim>\<open>null\<close>) is no field of the specification's mapping and is
  not part of the type.
\<close>

datatype fieldspec =
  Bare string
| Obj (selector: "string option") (type: "string option") (attr_name: "string option")

text \<open>
  What a field of the result can hold: a string, an array of strings, \<^verbatim>\<open>null\<close> (from
  \<^verbatim>\<open>.html()\<close>), \<^verbatim>\<open>undefined\<close> (from \<^verbatim>\<open>.attr()\<close>) or, when \<^verbatim>\<open>.attr()\<close> is called with
  no name, the attribute object of the first element.
\<close>

datatype jsvalue =
  JString string
| JArray "string list"
| JNull
| JUndefined
| JObject "string \<rightharpoonup> string"

definition query :: "(string \<Rightarrow> exn + element list) \<Rightarrow> string option \<Rightarrow> exn + element list" where
  \<comment> \<open>\<^verbatim>\<open>$(selector.selector)\<close>: the query function returns the empty set for \<^verbatim>\<open>undefined\<close>\<close>
  "query dollar sel = (case sel of None \<Rightarrow> Inr [] | Some s \<Rightarrow> dollar s)"

definition attr_value :: "element list \<Rightarrow> string option \<Rightarrow> jsvalue" where
  \<comment> \<open>\<^verbatim>\<open>$(...).attr(selector.attr)\<close>; without a name the getter returns all attributes\<close>
  "attr_value es name =
     (case es of
        [] \<Rightarrow> JUndefined
      | e # _ \<Rightarrow>
          if truthy name
          then (case attribs e (or_empty name) of None \<Rightarrow> JUndefined | Some v \<Rightarrow> JString v)
          else JObject (attribs e))"

definition text_value :: "(string \<Rightarrow> exn + element list) \<Rightarrow> string option \<Rightarrow> exn + jsvalue" where
  \<comment> \<open>\<^verbatim>\<open>$(sel).text().trim()\<close>\<close>
  "text_value dollar sel =
     (case query dollar sel of
        Inl err \<Rightarrow> Inl err
      | Inr es \<Rightarrow> Inr (JString (trim (text_of es))))"

text \<open>
  The body of the loop for one key: \<open>Inr None\<close> when no branch assigns
  \<^verbatim>\<open>result[key]\<close>, \<open>Inr (Some v)\<close> when \<open>v\<close> is assigned.
\<close>

definition field_value :: "(string \<Rightarrow> exn + element list) \<Rightarrow> fieldspec \<Rightarrow> exn + jsvalue option" where
  "field_value dollar spec =
     (case spec of
        Bare s \<Rightarrow> map_sum id Some (text_value dollar (Some s))
      | Obj sel ty name \<Rightarrow>
          if truthy ty
          then (if ty = Some ''text'' then map_sum id Some (text_value dollar sel)
                else if ty = Some ''html'' then
                  (case query dollar sel of
                     Inl err \<Rightarrow> Inl err
                   | Inr es \<Rightarrow>
                       Inr (Some (case html_of es of None \<Rightarrow> JNull | Some h \<Rightarrow> JString h)))
                else if ty = Some ''attr'' then
                  (case query dollar sel of
                     Inl err \<Rightarrow> Inl err
                   | Inr es \<Rightarrow> Inr (Some (attr_value es name)))
                else if ty = Some ''list'' then
                  (case query dollar sel of
                     Inl err \<Rightarrow> Inl err
                   | Inr es \<Rightarrow>
                       (case each (\<lambda>el items. Inr (items @ [trim (text_of [el])])) es [] of
                          Inl err \<Rightarrow> Inl err
                        | Inr items \<Rightarrow> Inr (Some (JArray items))))
                else map_sum id Some (text_value dollar sel))
          else Inr None)"

fun structured_fields ::
  "(string \<Rightarrow> exn + element list) \<Rightarrow> (string \<times> fieldspec) list \<Rightarrow> (string \<rightharpoonup> jsvalue)
   \<Rightarrow> exn + (string \<rightharpoonup> jsvalue)" where
  "structured_fields dollar [] result = Inr result"
| "structured_fields dollar ((key, spec) # rest) result =
     (case field_value dollar spec of
        Inl err \<Rightarrow> Inl err
      | Inr None \<Rightarrow> structured_fields dollar rest result
      | Inr (Some v) \<Rightarrow> structured_fields dollar rest (assign result key v))"

definition extractStructuredData ::
  "lib \<Rightarrow> string \<Rightarrow> (string \<times> fieldspec) list \<Rightarrow> exn + (string \<rightharpoonup> jsvalue)" where
  "extractStructuredData L html mapping = structured_fields (load L html) mapping Map.empty"

section \<open>The client's defaults\<close>

text \<open>
  The constructor hands \<^verbatim>\<open>axios.create\<close> a timeout and a header object; \<open>setAuth\<close>,
  \<open>setHeaders\<close> and \<open>setCookies\<close> assign to \<^verbatim>\<open>this.client.defaults\<close>. The
  defaults are a record, a header object is a map from names to values, and each
  method returns the new defaults.
\<close>

record credentials =
  username :: string
  password :: string

record client =
  timeout :: nat
  headers :: "string \<rightharpoonup> string"
  auth :: "credentials option"

record options =
  opt_timeout :: "nat option"
  opt_headers :: "string \<rightharpoonup> string"
  opt_auth :: "credentials option"

definition default_user_agent :: string where
  "default_user_agent =
     ''Mozilla/5.0 (iPhone; CPU iPhone OS 14_0 like Mac OS X) AppleWebKit/605.1.15 (KHTML, like Gecko) Mobile/15E148''"

definition constructor :: "options \<Rightarrow> client" where
  "constructor opts =
     \<lparr>timeout = (case opt_timeout opts of None \<Rightarrow> 10000 | Some t \<Rightarrow> if t = 0 then 10000 else t),
      headers = [''User-Agent'' \<mapsto> default_user_agent] ++ opt_headers opts,
      auth = opt_auth opts\<rparr>"

definition setAuth :: "client \<Rightarrow> credentials \<Rightarrow> client" where
  "setAuth c a = c\<lparr>auth := Some a\<rparr>"

definition setHeaders :: "client \<Rightarrow> (string \<rightharpoonup> string) \<Rightarrow> client" where
  "setHeaders c hs = c\<lparr>headers := headers c ++ hs\<rparr>"

definition setCookies :: "client \<Rightarrow> string \<Rightarrow> client" where
  "setCookies c cookies = setHeaders c [''Cookie'' \<mapsto> cookies]"

section \<open>The claims' vocabulary\<close>

text \<open>
  The definitions of this section are not translated from the source: they say, in the
  words of the claims, what a record of the result is and which fields of a mapping are
  evaluated. The theorems compare them with the functions above.

  An attribute counts when it is present and not the empty string.
\<close>

definition nonempty :: "string option \<Rightarrow> string option" where
  "nonempty v = (case v of None \<Rightarrow> None | Some s \<Rightarrow> if s = [] then None else Some s)"

definition source_url :: "element \<Rightarrow> string option" where
  \<comment> \<open>\<^verbatim>\<open>src\<close>, falling back to \<^verbatim>\<open>data-src\<close> when \<^verbatim>\<open>src\<close> is absent or empty\<close>
  "source_url e =
     (case nonempty (attribs e ''src'') of
        Some u \<Rightarrow> Some u
      | None \<Rightarrow> nonempty (attribs e ''data-src''))"

definition image_record :: "element \<Rightarrow> string \<Rightarrow> image" where
  \<comment> \<open>the record of an element, given its URL\<close>
  "image_record e u =
     \<lparr>url = u,
      alt = (case attribs e ''alt'' of None \<Rightarrow> [] | Some a \<Rightarrow> a),
      width = nonempty (attribs e ''width''),
      height = nonempty (attribs e ''height'')\<rparr>"

definition link_record :: "element \<Rightarrow> string \<Rightarrow> link" where
  "link_record e u = \<lparr>link_url = u, link_text = trim (el_text e)\<rparr>"

definition image_of :: "lib \<Rightarrow> string \<Rightarrow> element \<Rightarrow> image \<Rightarrow> bool" where
  \<comment> \<open>\<open>r\<close> is the record of \<open>e\<close>: a URL starting with \<^verbatim>\<open>/\<close> is the constructor's
      \<^verbatim>\<open>href\<close> for it and a non-empty base URL, any other URL is the attribute as it is\<close>
  "image_of L baseUrl e r =
     ((case source_url e of
         None \<Rightarrow> False
       | Some u \<Rightarrow>
           if startsWith u ''/'' \<and> baseUrl \<noteq> [] then new_url L u baseUrl = Inr (url r)
           else url r = u)
      \<and> alt r = (case attribs e ''alt'' of None \<Rightarrow> [] | Some a \<Rightarrow> a)
      \<and> width r = nonempty (attribs e ''width'')
      \<and> height r = nonempty (attribs e ''height''))"

definition link_of :: "lib \<Rightarrow> string \<Rightarrow> element \<Rightarrow> link \<Rightarrow> bool" where
  "link_of L baseUrl e r =
     ((case nonempty (attribs e ''href'') of
         None \<Rightarrow> False
       | Some u \<Rightarrow>
           if startsWith u ''/'' \<and> baseUrl \<noteq> [] then new_url L u baseUrl = Inr (link_url r)
           else link_url r = u)
      \<and> link_text r = trim (el_text e))"

definition drop_empty_src :: "element \<Rightarrow> element" where
  \<comment> \<open>the same element without its \<^verbatim>\<open>src\<close> attribute, when that is the empty string\<close>
  "drop_empty_src e =
     (if attribs e ''src'' = Some [] then e\<lparr>attribs := (attribs e)(''src'' := None)\<rparr> else e)"

definition tagged :: "fieldspec \<Rightarrow> bool" where
  \<comment> \<open>a selector string, or an object whose mode tag is a non-empty string\<close>
  "tagged spec = (case spec of Bare s \<Rightarrow> True | Obj sel ty name \<Rightarrow> nonempty ty \<noteq> None)"

definition field_selector :: "fieldspec \<Rightarrow> string option" where
  "field_selector spec = (case spec of Bare s \<Rightarrow> Some s | Obj sel ty name \<Rightarrow> sel)"

definition empty_value :: "fieldspec \<Rightarrow> jsvalue" where
  \<comment> \<open>the value of a field whose selector matches nothing\<close>
  "empty_value spec =
     (case spec of
        Bare s \<Rightarrow> JString []
      | Obj sel ty name \<Rightarrow>
          if ty = Some ''html'' then JNull
          else if ty = Some ''attr'' then JUndefined
          else if ty = Some ''list'' then JArray []
          else JString [])"

section \<open>Documents used as examples\<close>

text \<open>
  \<open>browser\<close> tabulates what the two libraries answer on the documents, selectors and
  URLs of the examples below: the node-sets of these documents, in document order, and
  the resolution of two root-relative URLs. The examples use the table only at the
  entries listed and at a selector that matches nothing; every other entry is the empty
  node-set, or the constructor's \<^verbatim>\<open>TypeError\<close>.
\<close>

definition h1_doc :: string where
  \<open>h1_doc = ''<h1>T</h1>''\<close>

definition img_doc :: string where
  \<open>img_doc = ''<img src="/a.png" alt="x">''\<close>

definition a_doc :: string where
  \<open>a_doc = ''<a href="/p">Hi</a>''\<close>

definition empty_src_doc :: string where
  \<open>empty_src_doc = ''<img src="">''\<close>

definition empty_href_doc :: string where
  \<open>empty_href_doc = ''<a href="">x</a>''\<close>

definition lazy_doc :: string where
  \<open>lazy_doc = ''<img src="" data-src="b.png">''\<close>

definition gallery_doc :: string where
  \<open>gallery_doc = ''<p><img src="" data-src="b.png" width=""><img alt="none"><img src="/a.png" height="5"></p>''\<close>

definition nav_doc :: string where
  \<open>nav_doc = ''<p><a name="top">y</a><a href="/p"> Hi </a><a href="q.html">Q</a></p>''\<close>

definition h1_nodes :: "element list" where
  "h1_nodes = [\<lparr>attribs = Map.empty, el_text = ''T'', el_html = ''T''\<rparr>]"

definition img_nodes :: "element list" where
  "img_nodes =
     [\<lparr>attribs = [''src'' \<mapsto> ''/a.png'', ''alt'' \<mapsto> ''x''], el_text = [], el_html = []\<rparr>]"

definition a_nodes :: "element list" where
  "a_nodes = [\<lparr>attribs = [''href'' \<mapsto> ''/p''], el_text = ''Hi'', el_html = ''Hi''\<rparr>]"

definition empty_src_nodes :: "element list" where
  "empty_src_nodes = [\<lparr>attribs = [''src'' \<mapsto> []], el_text = [], el_html = []\<rparr>]"

definition empty_href_nodes :: "element list" where
  "empty_href_nodes = [\<lparr>attribs = [''href'' \<mapsto> []], el_text = ''x'', el_html = ''x''\<rparr>]"

definition lazy_nodes :: "element list" where
  "lazy_nodes =
     [\<lparr>attribs = [''src'' \<mapsto> [], ''data-src'' \<mapsto> ''b.png''], el_text = [], el_html = []\<rparr>]"

definition gallery_nodes :: "element list" where
  "gallery_nodes =
     [\<lparr>attribs = [''src'' \<mapsto> [], ''data-src'' \<mapsto> ''b.png'', ''width'' \<mapsto> []],
        el_text = [], el_html = []\<rparr>,
      \<lparr>attribs = [''alt'' \<mapsto> ''none''], el_text = [], el_html = []\<rparr>,
      \<lparr>attribs = [''src'' \<mapsto> ''/a.png'', ''height'' \<mapsto> ''5''], el_text = [], el_html = []\<rparr>]"

definition nav_nodes :: "element list" where
  "nav_nodes =
     [\<lparr>attribs = [''name'' \<mapsto> ''top''], el_text = ''y'', el_html = ''y''\<rparr>,
      \<lparr>attribs = [''href'' \<mapsto> ''/p''], el_text = '' Hi '', el_html = '' Hi ''\<rparr>,
      \<lparr>attribs = [''href'' \<mapsto> ''q.html''], el_text = ''Q'', el_html = ''Q''\<rparr>]"

definition browser :: lib where
  "browser =
     \<lparr>load = (\<lambda>html sel.
        if html = h1_doc \<and> sel = ''h1'' then Inr h1_nodes
        else if html = img_doc \<and> sel = ''img'' then Inr img_nodes
        else if html = a_doc \<and> sel = ''a'' then Inr a_nodes
        else if html = empty_src_doc \<and> sel = ''img'' then Inr empty_src_nodes
        else if html = empty_href_doc \<and> sel = ''a'' then Inr empty_href_nodes
        else if html = lazy_doc \<and> sel = ''img'' then Inr lazy_nodes
        else if html = gallery_doc \<and> sel = ''img'' then Inr gallery_nodes
        else if html = nav_doc \<and> sel = ''a'' then Inr nav_nodes
        else Inr []),
      new_url = (\<lambda>u b.
        if u = ''/a.png'' \<and> b = ''https://h.example/'' then Inr ''https://h.example/a.png''
        else if u = ''/p'' \<and> b = ''https://h.example'' then Inr ''https://h.example/p''
        else Inl (TypeError ''Invalid URL''))\<rparr>"

section \<open>Trimming\<close>

lemma leading_Nil: "leading ws [] = 0"
  by (induction ws) (auto simp: leading_def)

lemma trim_Nil: "trim [] = []"
  by (simp add: trim_def strip.simps leading_Nil)

lemma trim_T: "trim ''T'' = ''T''"
  by (simp add: trim_def strip.simps leading_def white_space_def)

lemma trim_Q: "trim ''Q'' = ''Q''"
  by (simp add: trim_def strip.simps leading_def white_space_def)

lemma trim_Hi: "trim ''Hi'' = ''Hi''"
  by (simp add: trim_def strip.simps leading_def white_space_def)

lemma trim_Hi_padded: "trim '' Hi '' = ''Hi''"
  by (simp add: trim_def strip.simps leading_def white_space_def)

text \<open>
  White space beyond ASCII is stripped as well: a no-break space and a line feed before
  the text, a space and a line separator after it.
\<close>

lemma trim_no_break_space:
  "trim ([CHR 0xC2, CHR 0xA0, CHR 0x0A] @ ''T'' @ [CHR 0x20, CHR 0xE2, CHR 0x80, CHR 0xA8]) = ''T''"
  by (simp add: trim_def strip.simps leading_def white_space_def)

section \<open>Truthiness and the callbacks\<close>

lemma or_null_nonempty: "or_null v = nonempty v"
  by (cases v) (simp_all add: or_null_def nonempty_def truthy_def)

lemma attr_single: "attr [e] n = attribs e n"
  by (simp add: attr_def)

lemma text_of_single: "text_of [e] = el_text e"
  by (simp add: text_of_def)

lemma nonempty_Some: "nonempty v = Some u \<Longrightarrow> v = Some u \<and> u \<noteq> []"
  by (cases v) (simp_all add: nonempty_def split: if_splits)

lemma nonempty_js_or:
  "nonempty (js_or a b) = (case nonempty a of Some u \<Rightarrow> Some u | None \<Rightarrow> nonempty b)"
  by (cases a) (simp_all add: js_or_def nonempty_def truthy_def)

lemma resolve_nonempty:
  "resolve L base v =
     (case nonempty v of
        None \<Rightarrow> Inr v
      | Some u \<Rightarrow> if startsWith u ''/'' \<and> base \<noteq> []
                  then (case new_url L u base of Inl err \<Rightarrow> Inl err | Inr h \<Rightarrow> Inr (Some h))
                  else Inr (Some u))"
  by (cases v) (simp_all add: resolve_def nonempty_def)

text \<open>One call of each callback, by the URL attribute of its element.\<close>

lemma image_callback_cases:
  "image_callback L base e acc =
     (case source_url e of
        None \<Rightarrow> Inr acc
      | Some u \<Rightarrow>
          if startsWith u ''/'' \<and> base \<noteq> []
          then (case new_url L u base of
                  Inl err \<Rightarrow> Inl err
                | Inr h \<Rightarrow> if h \<noteq> [] then Inr (acc @ [image_record e h]) else Inr acc)
          else Inr (acc @ [image_record e u]))"
proof (cases "source_url e")
  case None
  then have n: "nonempty (js_or (attribs e ''src'') (attribs e ''data-src'')) = None"
    by (simp add: nonempty_js_or source_url_def)
  show ?thesis
    unfolding image_callback_def attr_single resolve_nonempty n None
    by (cases "js_or (attribs e ''src'') (attribs e ''data-src'')")
       (use n in \<open>simp_all add: nonempty_def split: if_splits\<close>)
next
  case (Some u)
  then have n: "nonempty (js_or (attribs e ''src'') (attribs e ''data-src'')) = Some u"
    by (simp add: nonempty_js_or source_url_def)
  then have u: "u \<noteq> []"
    by (simp add: nonempty_Some)
  show ?thesis
    unfolding image_callback_def attr_single resolve_nonempty n Some or_null_nonempty
    using u by (simp add: image_record_def or_empty_def split: sum.splits)
qed

lemma link_callback_cases:
  "link_callback L base e acc =
     (case nonempty (attribs e ''href'') of
        None \<Rightarrow> Inr acc
      | Some u \<Rightarrow>
          if startsWith u ''/'' \<and> base \<noteq> []
          then (case new_url L u base of
                  Inl err \<Rightarrow> Inl err
                | Inr h \<Rightarrow> if h \<noteq> [] then Inr (acc @ [link_record e h]) else Inr acc)
          else Inr (acc @ [link_record e u]))"
proof (cases "nonempty (attribs e ''href'')")
  case None
  show ?thesis
    unfolding link_callback_def attr_single resolve_nonempty None
    by (cases "attribs e ''href''") (use None in \<open>simp_all add: nonempty_def split: if_splits\<close>)
next
  case (Some u)
  then have u: "u \<noteq> []"
    by (simp add: nonempty_Some)
  show ?thesis
    unfolding link_callback_def attr_single text_of_single resolve_nonempty Some
    using u by (simp add: link_record_def split: sum.splits)
qed

section \<open>The iteration over the node-set\<close>

text \<open>
  When every resolution that is attempted succeeds with a non-empty \<^verbatim>\<open>href\<close>, the
  iteration appends one record per element that has a URL, in the order of the elements.
\<close>

lemma each_images:
  assumes "\<forall>e\<in>set es. \<forall>u. source_url e = Some u \<and> startsWith u ''/'' \<and> base \<noteq> []
             \<longrightarrow> (\<exists>h. h \<noteq> [] \<and> new_url L u base = Inr h)"
  shows "\<exists>recs. each (image_callback L base) es acc = Inr (acc @ recs)
           \<and> list_all2 (image_of L base) (filter (\<lambda>e. source_url e \<noteq> None) es) recs"
  using assms
proof (induction es arbitrary: acc)
  case Nil
  then show ?case by simp
next
  case (Cons e es)
  then have ih: "\<And>acc'. \<exists>recs. each (image_callback L base) es acc' = Inr (acc' @ recs)
           \<and> list_all2 (image_of L base) (filter (\<lambda>e. source_url e \<noteq> None) es) recs"
    by simp
  show ?case
  proof (cases "source_url e")
    case None
    then have "image_callback L base e acc = Inr acc"
      by (simp add: image_callback_cases)
    with ih [of acc] None show ?thesis by simp
  next
    case (Some u)
    have "\<exists>h. image_callback L base e acc = Inr (acc @ [image_record e h])
            \<and> image_of L base e (image_record e h)"
    proof (cases "startsWith u ''/'' \<and> base \<noteq> []")
      case True
      with Cons.prems Some obtain h where h: "h \<noteq> []" "new_url L u base = Inr h"
        by auto
      with Some True have "image_callback L base e acc = Inr (acc @ [image_record e h])"
        by (simp add: image_callback_cases)
      moreover from Some True h have "image_of L base e (image_record e h)"
        by (simp add: image_of_def image_record_def)
      ultimately show ?thesis by blast
    next
      case False
      with Some have "image_callback L base e acc = Inr (acc @ [image_record e u])"
        by (auto simp: image_callback_cases)
      moreover from Some False have "image_of L base e (image_record e u)"
        by (auto simp: image_of_def image_record_def)
      ultimately show ?thesis by blast
    qed
    then obtain h where step: "image_callback L base e acc = Inr (acc @ [image_record e h])"
      and rel: "image_of L base e (image_record e h)"
      by blast
    from ih [of "acc @ [image_record e h]"] obtain recs where
      "each (image_callback L base) es (acc @ [image_record e h]) = Inr (acc @ image_record e h # recs)"
      "list_all2 (image_of L base) (filter (\<lambda>e. source_url e \<noteq> None) es) recs"
      by auto
    with step rel Some show ?thesis by simp
  qed
qed

lemma each_links:
  assumes "\<forall>e\<in>set es. \<forall>u. nonempty (attribs e ''href'') = Some u \<and> startsWith u ''/'' \<and> base \<noteq> []
             \<longrightarrow> (\<exists>h. h \<noteq> [] \<and> new_url L u base = Inr h)"
  shows "\<exists>recs. each (link_callback L base) es acc = Inr (acc @ recs)
           \<and> list_all2 (link_of L base) (filter (\<lambda>e. nonempty (attribs e ''href'') \<noteq> None) es) recs"
  using assms
proof (induction es arbitrary: acc)
  case Nil
  then show ?case by simp
next
  case (Cons e es)
  then have ih: "\<And>acc'. \<exists>recs. each (link_callback L base) es acc' = Inr (acc' @ recs)
           \<and> list_all2 (link_of L base) (filter (\<lambda>e. nonempty (attribs e ''href'') \<noteq> None) es) recs"
    by simp
  show ?case
  proof (cases "nonempty (attribs e ''href'')")
    case None
    then have "link_callback L base e acc = Inr acc"
      by (simp add: link_callback_cases)
    with ih [of acc] None show ?thesis by simp
  next
    case (Some u)
    have "\<exists>h. link_callback L base e acc = Inr (acc @ [link_record e h])
            \<and> link_of L base e (link_record e h)"
    proof (cases "startsWith u ''/'' \<and> base \<noteq> []")
      case True
      with Cons.prems Some obtain h where h: "h \<noteq> []" "new_url L u base = Inr h"
        by auto
      with Some True have "link_callback L base e acc = Inr (acc @ [link_record e h])"
        by (simp add: link_callback_cases)
      moreover from Some True h have "link_of L base e (link_record e h)"
        by (simp add: link_of_def link_record_def)
      ultimately show ?thesis by blast
    next
      case False
      with Some have "link_callback L base e acc = Inr (acc @ [link_record e u])"
        by (auto simp: link_callback_cases)
      moreover from Some False have "link_of L base e (link_record e u)"
        by (auto simp: link_of_def link_record_def)
      ultimately show ?thesis by blast
    qed
    then obtain h where step: "link_callback L base e acc = Inr (acc @ [link_record e h])"
      and rel: "link_of L base e (link_record e h)"
      by blast
    from ih [of "acc @ [link_record e h]"] obtain recs where
      "each (link_callback L base) es (acc @ [link_record e h]) = Inr (acc @ link_record e h # recs)"
      "list_all2 (link_of L base) (filter (\<lambda>e. nonempty (attribs e ''href'') \<noteq> None) es) recs"
      by auto
    with step rel Some show ?thesis by simp
  qed
qed

text \<open>Without a base URL the constructor is never called and the iteration cannot fail.\<close>

lemma each_images_no_base:
  "each (image_callback L []) es acc =
     Inr (acc @ List.map_filter (\<lambda>e. map_option (image_record e) (source_url e)) es)"
proof (induction es arbitrary: acc)
  case Nil
  then show ?case by (simp add: List.map_filter_simps)
next
  case (Cons e es)
  then show ?case
    by (cases "source_url e") (simp_all add: image_callback_cases List.map_filter_simps)
qed

lemma each_links_no_base:
  "each (link_callback L []) es acc =
     Inr (acc @ List.map_filter (\<lambda>e. map_option (link_record e) (nonempty (attribs e ''href''))) es)"
proof (induction es arbitrary: acc)
  case Nil
  then show ?case by (simp add: List.map_filter_simps)
next
  case (Cons e es)
  then show ?case
    by (cases "nonempty (attribs e ''href'')") (simp_all add: link_callback_cases List.map_filter_simps)
qed

text \<open>The iteration sees only what the callback sees of an element.\<close>

lemma each_map_cong:
  "(\<And>e acc. e \<in> set es \<Longrightarrow> f (g e) acc = f e acc) \<Longrightarrow> each f (map g es) acc = each f es acc"
  by (induction es arbitrary: acc) (simp_all split: sum.splits)

lemma each_filter_skip:
  "(\<And>e acc. e \<in> set es \<Longrightarrow> \<not> P e \<Longrightarrow> f e acc = Inr acc)
     \<Longrightarrow> each f (filter P es) acc = each f es acc"
  by (induction es arbitrary: acc) (simp_all split: sum.splits)

lemma each_invariant:
  "each f es acc = Inr out \<Longrightarrow> Q acc \<Longrightarrow> (\<And>e a b. f e a = Inr b \<Longrightarrow> Q a \<Longrightarrow> Q b) \<Longrightarrow> Q out"
proof (induction es arbitrary: acc)
  case Nil
  then show ?case by simp
next
  case (Cons e es)
  from Cons.prems(1) obtain b where b: "f e acc = Inr b" "each f es b = Inr out"
    by (auto split: sum.splits)
  from b(1) Cons.prems(2) have "Q b" by (rule Cons.prems(3))
  with b(2) show ?case using Cons.prems(3) by (rule Cons.IH)
qed

lemma source_url_drop_empty_src: "source_url (drop_empty_src e) = source_url e"
  by (simp add: source_url_def drop_empty_src_def nonempty_def)

lemma image_record_drop_empty_src: "image_record (drop_empty_src e) u = image_record e u"
  by (simp add: image_record_def drop_empty_src_def)

lemma image_callback_drop_empty_src:
  "image_callback L base (drop_empty_src e) acc = image_callback L base e acc"
  by (simp only: image_callback_cases source_url_drop_empty_src image_record_drop_empty_src)

lemma resolve_load_update: "resolve (L\<lparr>load := g\<rparr>) base v = resolve L base v"
  by (simp add: resolve_def split: option.splits)

lemma resolve_no_base: "resolve L [] v = Inr v"
  by (simp add: resolve_def split: option.splits)

lemma image_callback_load_update: "image_callback (L\<lparr>load := g\<rparr>) = image_callback L"
  by (intro ext) (simp only: image_callback_def resolve_load_update)

lemma image_callback_new_url_update:
  "image_callback (L\<lparr>new_url := f\<rparr>) [] = image_callback L []"
  by (intro ext) (simp only: image_callback_def resolve_no_base)

lemma link_callback_new_url_update:
  "link_callback (L\<lparr>new_url := f\<rparr>) [] = link_callback L []"
  by (intro ext) (simp only: link_callback_def resolve_no_base)

lemma image_callback_url_nonempty:
  "image_callback L base e a = Inr b \<Longrightarrow> \<forall>r\<in>set a. url r \<noteq> [] \<Longrightarrow> \<forall>r\<in>set b. url r \<noteq> []"
  by (auto simp: image_callback_def split: sum.splits option.splits if_splits)

section \<open>The loop over the fields of a mapping\<close>

text \<open>What one field contributes, by its kind and by the answer of the query.\<close>

lemma each_push: "each (\<lambda>el items. Inr (items @ [g el])) es acc = Inr (acc @ map g es)"
  by (induction es arbitrary: acc) simp_all

lemma tagged_Obj: "tagged (Obj sel ty name) = truthy ty"
  by (cases ty) (simp_all add: tagged_def nonempty_def truthy_def)

lemma field_value_untagged: "\<not> tagged spec \<Longrightarrow> field_value dollar spec = Inr None"
  by (cases spec) (simp_all add: field_value_def tagged_Obj, simp add: tagged_def)

lemma field_value_error:
  "field_value dollar spec = Inl err \<Longrightarrow> query dollar (field_selector spec) = Inl err"
  by (cases spec)
     (auto simp: field_value_def text_value_def field_selector_def query_def each_push
        split: if_splits sum.splits)

lemma field_value_tagged:
  "tagged spec \<Longrightarrow> query dollar (field_selector spec) = Inr es
     \<Longrightarrow> \<exists>v. field_value dollar spec = Inr (Some v)"
  by (cases spec)
     (auto simp: field_value_def text_value_def field_selector_def tagged_Obj each_push)

lemma field_value_no_match:
  "tagged spec \<Longrightarrow> query dollar (field_selector spec) = Inr []
     \<Longrightarrow> field_value dollar spec = Inr (Some (empty_value spec))"
  by (cases spec)
     (auto simp: field_value_def text_value_def field_selector_def tagged_Obj empty_value_def
        text_of_def trim_Nil html_of_def attr_value_def)

lemma field_value_bare:
  "field_value dollar (Bare s) = field_value dollar (Obj (Some s) (Some ''text'') name)"
  by (simp add: field_value_def truthy_def)

lemma field_value_text:
  "query dollar sel = Inr es
     \<Longrightarrow> field_value dollar (Obj sel (Some ''text'') name) = Inr (Some (JString (trim (text_of es))))"
  by (simp add: field_value_def truthy_def text_value_def)

lemma field_value_other:
  "t \<noteq> [] \<Longrightarrow> t \<notin> {''text'', ''html'', ''attr'', ''list''}
     \<Longrightarrow> field_value dollar (Obj sel (Some t) name) = field_value dollar (Obj sel (Some ''text'') name)"
  by (simp add: field_value_def truthy_def)

lemma field_value_attr_no_name:
  "query dollar sel = Inr es
     \<Longrightarrow> field_value dollar (Obj sel (Some ''attr'') None)
         = Inr (Some (case es of [] \<Rightarrow> JUndefined | e # _ \<Rightarrow> JObject (attribs e)))"
  by (simp add: field_value_def truthy_def attr_value_def split: list.splits)

lemma structured_fields_append:
  "structured_fields d (m1 @ m2) r =
     (case structured_fields d m1 r of Inl err \<Rightarrow> Inl err | Inr r' \<Rightarrow> structured_fields d m2 r')"
proof (induction m1 arbitrary: r)
  case Nil
  then show ?case by simp
next
  case (Cons a m1)
  obtain k spec where a: "a = (k, spec)" by (cases a)
  show ?case
  proof (cases "field_value d spec")
    case (Inl err)
    then show ?thesis by (simp add: a)
  next
    case (Inr v)
    then show ?thesis by (cases v) (simp_all add: a Cons.IH del: fun_upd_apply)
  qed
qed

lemma structured_fields_replace:
  "field_value d spec = field_value d spec'
     \<Longrightarrow> structured_fields d (m1 @ (k, spec) # m2) r = structured_fields d (m1 @ (k, spec') # m2) r"
  by (simp add: structured_fields_append split: sum.splits)

lemma structured_fields_drop:
  "field_value d spec = Inr None
     \<Longrightarrow> structured_fields d (m1 @ (k, spec) # m2) r = structured_fields d (m1 @ m2) r"
  by (simp add: structured_fields_append split: sum.splits)

lemma structured_fields_ok:
  "\<forall>(k, spec)\<in>set m. tagged spec \<longrightarrow> (\<exists>es. query d (field_selector spec) = Inr es)
     \<Longrightarrow> \<exists>r'. structured_fields d m r = Inr r'"
proof (induction m arbitrary: r)
  case Nil
  then show ?case by simp
next
  case (Cons a m)
  obtain k spec where a: "a = (k, spec)" by (cases a)
  from Cons.prems have rest:
    "\<forall>(k, spec)\<in>set m. tagged spec \<longrightarrow> (\<exists>es. query d (field_selector spec) = Inr es)"
    by simp
  show ?case
  proof (cases "tagged spec")
    case True
    with Cons.prems a obtain es where "query d (field_selector spec) = Inr es" by auto
    with True obtain v where v: "field_value d spec = Inr (Some v)"
      using field_value_tagged by blast
    from rest have "\<exists>r'. structured_fields d m (assign r k v) = Inr r'" by (rule Cons.IH)
    with v a show ?thesis by simp
  next
    case False
    then have v: "field_value d spec = Inr None" by (rule field_value_untagged)
    from rest have "\<exists>r'. structured_fields d m r = Inr r'" by (rule Cons.IH)
    with v a show ?thesis by simp
  qed
qed

lemma field_value_Some_tagged: "field_value d spec = Inr (Some v) \<Longrightarrow> tagged spec"
  using field_value_untagged [of spec d] by auto

lemma field_value_None_untagged: "field_value d spec = Inr None \<Longrightarrow> \<not> tagged spec"
  by (cases spec)
     (auto simp: field_value_def text_value_def tagged_Obj each_push split: if_splits sum.splits)

text \<open>The own properties after an assignment.\<close>

lemma assign_other: "k \<noteq> k' \<Longrightarrow> assign r k' v k = r k"
  by (simp add: assign_def)

lemma assign_same: "k \<noteq> ''__proto__'' \<Longrightarrow> assign r k v k = Some v"
  by (simp add: assign_def)

lemma dom_assign:
  "dom (assign r k v) = (if k = ''__proto__'' then dom r else insert k (dom r))"
  by (simp add: assign_def)

lemma structured_fields_keep:
  "structured_fields d m r = Inr r' \<Longrightarrow> k \<notin> fst ` set m \<Longrightarrow> r' k = r k"
proof (induction m arbitrary: r)
  case Nil
  then show ?case by simp
next
  case (Cons a m)
  obtain k' spec where a: "a = (k', spec)" by (cases a)
  from Cons.prems(2) a have k: "k \<noteq> k'" "k \<notin> fst ` set m" by auto
  show ?case
  proof (cases "field_value d spec")
    case (Inl err)
    with Cons.prems(1) a show ?thesis by simp
  next
    case (Inr v)
    show ?thesis
    proof (cases v)
      case None
      with Inr Cons.prems(1) a have "structured_fields d m r = Inr r'" by simp
      then show ?thesis using k(2) by (rule Cons.IH)
    next
      case (Some x)
      with Inr Cons.prems(1) a have "structured_fields d m (assign r k' x) = Inr r'" by simp
      then have "r' k = assign r k' x k" using k(2) by (rule Cons.IH)
      with k(1) show ?thesis by (simp add: assign_other)
    qed
  qed
qed

lemma structured_fields_value:
  "structured_fields d m r = Inr r' \<Longrightarrow> distinct (map fst m) \<Longrightarrow> (k, spec) \<in> set m
     \<Longrightarrow> field_value d spec = Inr (Some v) \<Longrightarrow> k \<noteq> ''__proto__'' \<Longrightarrow> r' k = Some v"
proof (induction m arbitrary: r)
  case Nil
  then show ?case by simp
next
  case (Cons a m)
  obtain k' spec' where a: "a = (k', spec')" by (cases a)
  from Cons.prems(2) a have d: "k' \<notin> fst ` set m" "distinct (map fst m)" by auto
  show ?case
  proof (cases "(k, spec) = (k', spec')")
    case True
    with Cons.prems(1,4) a have "structured_fields d m (assign r k v) = Inr r'" by simp
    moreover from d(1) True have "k \<notin> fst ` set m" by simp
    ultimately have "r' k = assign r k v k" by (rule structured_fields_keep)
    with Cons.prems(5) show ?thesis by (simp add: assign_same)
  next
    case False
    with Cons.prems(3) a have m: "(k, spec) \<in> set m" by auto
    show ?thesis
    proof (cases "field_value d spec'")
      case (Inl err)
      with Cons.prems(1) a show ?thesis by simp
    next
      case (Inr w)
      show ?thesis
      proof (cases w)
        case None
        with Inr Cons.prems(1) a have "structured_fields d m r = Inr r'" by simp
        then show ?thesis using d(2) m Cons.prems(4,5) by (rule Cons.IH)
      next
        case (Some x)
        with Inr Cons.prems(1) a have "structured_fields d m (assign r k' x) = Inr r'" by simp
        then show ?thesis using d(2) m Cons.prems(4,5) by (rule Cons.IH)
      qed
    qed
  qed
qed

lemma structured_fields_dom:
  "structured_fields d m r = Inr r'
     \<Longrightarrow> dom r' = dom r \<union> {k. \<exists>spec. (k, spec) \<in> set m \<and> tagged spec \<and> k \<noteq> ''__proto__''}"
proof (induction m arbitrary: r)
  case Nil
  then show ?case by simp
next
  case (Cons a m)
  obtain k' spec' where a: "a = (k', spec')" by (cases a)
  show ?case
  proof (cases "field_value d spec'")
    case (Inl err)
    with Cons.prems a show ?thesis by simp
  next
    case (Inr w)
    show ?thesis
    proof (cases w)
      case None
      with Inr have u: "\<not> tagged spec'" by (simp add: field_value_None_untagged)
      from None Inr Cons.prems a have "structured_fields d m r = Inr r'" by simp
      then have "dom r' = dom r
          \<union> {k. \<exists>spec. (k, spec) \<in> set m \<and> tagged spec \<and> k \<noteq> ''__proto__''}"
        by (rule Cons.IH)
      with u a show ?thesis by auto
    next
      case (Some x)
      with Inr have t: "tagged spec'" by (simp add: field_value_Some_tagged)
      from Some Inr Cons.prems a have "structured_fields d m (assign r k' x) = Inr r'" by simp
      then have "dom r' = dom (assign r k' x)
          \<union> {k. \<exists>spec. (k, spec) \<in> set m \<and> tagged spec \<and> k \<noteq> ''__proto__''}"
        by (rule Cons.IH)
      with t a show ?thesis by (auto simp: dom_assign split: if_splits)
    qed
  qed
qed

lemma structured_fields_error:
  "structured_fields d m r = Inl err
     \<Longrightarrow> \<exists>(k, spec)\<in>set m. query d (field_selector spec) = Inl err"
proof (induction m arbitrary: r)
  case Nil
  then show ?case by simp
next
  case (Cons a m)
  obtain k' spec' where a: "a = (k', spec')" by (cases a)
  show ?case
  proof (cases "field_value d spec'")
    case (Inl e)
    with Cons.prems a have "e = err" by simp
    with Inl have "query d (field_selector spec') = Inl err" by (simp add: field_value_error)
    with a show ?thesis by auto
  next
    case (Inr w)
    have "\<exists>r0. structured_fields d m r0 = Inl err"
      using Inr Cons.prems a by (cases w) auto
    then obtain r0 where "structured_fields d m r0 = Inl err" ..
    then have "\<exists>(k, spec)\<in>set m. query d (field_selector spec) = Inl err" by (rule Cons.IH)
    then show ?thesis by auto
  qed
qed

section \<open>The answers of the example libraries\<close>

lemma browser_missing: "load browser h1_doc ''.missing'' = Inr []"
  by (simp add: browser_def)

lemma browser_h1: "load browser h1_doc ''h1'' = Inr h1_nodes"
  by (simp add: browser_def)

lemma browser_img: "load browser img_doc ''img'' = Inr img_nodes"
  by (simp add: browser_def h1_doc_def img_doc_def)

lemma browser_a: "load browser a_doc ''a'' = Inr a_nodes"
  by (simp add: browser_def h1_doc_def img_doc_def a_doc_def)

lemma browser_empty_src: "load browser empty_src_doc ''img'' = Inr empty_src_nodes"
  by (simp add: browser_def h1_doc_def img_doc_def a_doc_def empty_src_doc_def)

lemma browser_empty_href: "load browser empty_href_doc ''a'' = Inr empty_href_nodes"
  by (simp add: browser_def h1_doc_def img_doc_def a_doc_def empty_src_doc_def empty_href_doc_def)

lemma browser_lazy: "load browser lazy_doc ''img'' = Inr lazy_nodes"
  by (simp add: browser_def h1_doc_def img_doc_def a_doc_def empty_src_doc_def
      empty_href_doc_def lazy_doc_def)

lemma browser_gallery: "load browser gallery_doc ''img'' = Inr gallery_nodes"
  by (simp add: browser_def h1_doc_def img_doc_def a_doc_def empty_src_doc_def
      empty_href_doc_def lazy_doc_def gallery_doc_def)

lemma browser_nav: "load browser nav_doc ''a'' = Inr nav_nodes"
  by (simp add: browser_def h1_doc_def img_doc_def a_doc_def empty_src_doc_def
      empty_href_doc_def lazy_doc_def gallery_doc_def nav_doc_def)

lemma browser_url_a:
  "new_url browser ''/a.png'' ''https://h.example/'' = Inr ''https://h.example/a.png''"
  by (simp add: browser_def)

lemma browser_url_p: "new_url browser ''/p'' ''https://h.example'' = Inr ''https://h.example/p''"
  by (simp add: browser_def)

text \<open>
  Two runs against \<^verbatim>\<open><h1>T</h1>\<close> and one anchor, for the two points where the result
  is not what a map update and an ASCII trim would give. In the mapping
  \<^verbatim>\<open>{"__proto__": "h1", "t": "h1"}\<close> only \<^verbatim>\<open>t\<close> becomes a key of the result. The text
  of an anchor padded with a no-break space and a space is trimmed of both.
\<close>

lemma proto_key_is_not_own:
  "map_sum id dom
     (extractStructuredData browser h1_doc [(''__proto__'', Bare ''h1''), (''t'', Bare ''h1'')])
   = Inr {''t''}"
  by (simp add: extractStructuredData_def assign_def field_value_def text_value_def query_def
      browser_h1)

lemma link_text_no_break_space:
  assumes "load L html sel
             = Inr [\<lparr>attribs = [''href'' \<mapsto> ''q.html''],
                     el_text = [CHR 0xC2, CHR 0xA0] @ ''T '', el_html = h\<rparr>]"
  shows "extractLinks L html sel base = Inr [\<lparr>link_url = ''q.html'', link_text = ''T''\<rparr>]"
proof -
  have "trim ([CHR 0xC2, CHR 0xA0] @ ''T '') = ''T''"
    by (simp add: trim_def strip.simps leading_def white_space_def)
  with assms show ?thesis
    by (simp add: extractLinks_def link_callback_cases nonempty_def startsWith_def
        link_record_def)
qed

section \<open>A selector that matches nothing\<close>

text \<open>
  C4. When the selector matches zero elements, \<open>extractText\<close> returns the empty
  string and \<open>extractImages\<close> and \<open>extractLinks\<close> return the empty sequence,
  whatever the base URL; none of the three raises an error.
\<close>

theorem no_match_is_empty:
  assumes "load L html sel = Inr []"
  shows "extractText L html (Selector sel) = Inr (Text [])
         \<and> extractImages L html sel base = Inr []
         \<and> extractLinks L html sel base = Inr []"
  using assms
  by (simp add: extractText_def extractImages_def extractLinks_def text_of_def trim_Nil)

text \<open>The document \<^verbatim>\<open><h1>T</h1>\<close> has no element of class \<^verbatim>\<open>missing\<close>.\<close>

theorem no_match_is_empty_witness:
  "load browser h1_doc ''.missing'' = Inr []
   \<and> extractText browser h1_doc (Selector ''.missing'') = Inr (Text [])
   \<and> extractImages browser h1_doc ''.missing'' ''https://h.example/'' = Inr []
   \<and> extractLinks browser h1_doc ''.missing'' ''https://h.example/'' = Inr []"
  using browser_missing no_match_is_empty [OF browser_missing, of "''https://h.example/''"]
  by simp

section \<open>The records of extractImages\<close>

text \<open>
  C5, as the claim states it, fails: it skips only an element with neither \<^verbatim>\<open>src\<close>
  nor \<^verbatim>\<open>data-src\<close>, and promises a record for every other matched element. The
  only element of \<^verbatim>\<open><img src="">\<close> has a \<^verbatim>\<open>src\<close> attribute, and
  \<open>extractImages\<close> returns no record for it: the empty string is false in
  \<^verbatim>\<open>attr('src') || attr('data-src')\<close> and in \<^verbatim>\<open>if (imageUrl)\<close>.
\<close>

theorem extractImages_empty_src_counterexample:
  "load browser empty_src_doc ''img'' = Inr empty_src_nodes
   \<and> length (filter (\<lambda>e. attribs e ''src'' \<noteq> None \<or> attribs e ''data-src'' \<noteq> None)
        empty_src_nodes) = 1
   \<and> extractImages browser empty_src_doc ''img'' ''https://h.example/'' = Inr []"
  by (simp add: browser_empty_src extractImages_def empty_src_nodes_def image_callback_cases
      source_url_def nonempty_def)

text \<open>
  C5, amended. Let the selector match the elements \<open>es\<close>, and let the URL constructor
  accept every URL it is asked to resolve, returning a non-empty \<^verbatim>\<open>href\<close>. Then
  \<open>extractImages\<close> returns one record per matched element whose \<^verbatim>\<open>src\<close> or
  \<^verbatim>\<open>data-src\<close> is non-empty, in document order. The URL is taken from \<^verbatim>\<open>src\<close>,
  falling back to \<^verbatim>\<open>data-src\<close> when \<^verbatim>\<open>src\<close> is absent or empty; an element whose
  \<^verbatim>\<open>src\<close> and \<^verbatim>\<open>data-src\<close> are both absent or empty is skipped; a URL starting
  with \<^verbatim>\<open>/\<close> is replaced by the constructor's \<^verbatim>\<open>href\<close> for it and the base URL
  when the base URL is non-empty, and is left as it is when the base URL is empty;
  \<^verbatim>\<open>alt\<close> defaults to the empty string; \<^verbatim>\<open>width\<close> and \<^verbatim>\<open>height\<close> are
  \<^verbatim>\<open>null\<close> when absent or empty. In particular, when the only match of \<^verbatim>\<open>img\<close> in
  \<^verbatim>\<open><img src="/a.png" alt="x">\<close> is that element and the constructor resolves
  \<^verbatim>\<open>/a.png\<close> against \<^verbatim>\<open>https://h.example/\<close> to \<^verbatim>\<open>https://h.example/a.png\<close>, the
  result is exactly the record of the specification's example.
\<close>

theorem extractImages_records:
  "(load L html sel = Inr es
      \<and> (\<forall>e\<in>set es. \<forall>u. source_url e = Some u \<and> startsWith u ''/'' \<and> base \<noteq> []
             \<longrightarrow> (\<exists>h. h \<noteq> [] \<and> new_url L u base = Inr h))
    \<longrightarrow> (\<exists>recs. extractImages L html sel base = Inr recs
           \<and> list_all2 (image_of L base) (filter (\<lambda>e. source_url e \<noteq> None) es) recs))
   \<and> (load L img_doc ''img'' = Inr img_nodes
      \<and> new_url L ''/a.png'' ''https://h.example/'' = Inr ''https://h.example/a.png''
    \<longrightarrow> extractImages L img_doc ''img'' ''https://h.example/''
          = Inr [\<lparr>url = ''https://h.example/a.png'', alt = ''x'', width = None, height = None\<rparr>])"
proof (intro conjI impI)
  assume a: "load L html sel = Inr es
      \<and> (\<forall>e\<in>set es. \<forall>u. source_url e = Some u \<and> startsWith u ''/'' \<and> base \<noteq> []
             \<longrightarrow> (\<exists>h. h \<noteq> [] \<and> new_url L u base = Inr h))"
  then have "\<exists>recs. each (image_callback L base) es [] = Inr ([] @ recs)
           \<and> list_all2 (image_of L base) (filter (\<lambda>e. source_url e \<noteq> None) es) recs"
    by (intro each_images) blast
  with a show "\<exists>recs. extractImages L html sel base = Inr recs
           \<and> list_all2 (image_of L base) (filter (\<lambda>e. source_url e \<noteq> None) es) recs"
    by (simp add: extractImages_def)
next
  assume "load L img_doc ''img'' = Inr img_nodes
      \<and> new_url L ''/a.png'' ''https://h.example/'' = Inr ''https://h.example/a.png''"
  then show "extractImages L img_doc ''img'' ''https://h.example/''
          = Inr [\<lparr>url = ''https://h.example/a.png'', alt = ''x'', width = None, height = None\<rparr>]"
    by (simp add: extractImages_def img_nodes_def image_callback_cases source_url_def
        nonempty_def startsWith_def image_record_def)
qed

text \<open>
  Both parts at concrete inputs: a gallery of three images, of which the second has no
  URL and the third a root-relative one, and the document of the example.
\<close>

theorem extractImages_records_witness:
  "(\<exists>recs. extractImages browser gallery_doc ''img'' ''https://h.example/'' = Inr recs
           \<and> list_all2 (image_of browser ''https://h.example/'')
                (filter (\<lambda>e. source_url e \<noteq> None) gallery_nodes) recs)
   \<and> extractImages browser img_doc ''img'' ''https://h.example/''
       = Inr [\<lparr>url = ''https://h.example/a.png'', alt = ''x'', width = None, height = None\<rparr>]"
proof -
  have ok: "\<forall>e\<in>set gallery_nodes. \<forall>u.
              source_url e = Some u \<and> startsWith u ''/'' \<and> ''https://h.example/'' \<noteq> []
              \<longrightarrow> (\<exists>h. h \<noteq> [] \<and> new_url browser u ''https://h.example/'' = Inr h)"
    by (simp add: gallery_nodes_def source_url_def nonempty_def startsWith_def browser_url_a)
  from extractImages_records [of browser gallery_doc "''img''" gallery_nodes "''https://h.example/''"]
    browser_gallery browser_img browser_url_a ok
  show ?thesis by blast
qed

section \<open>The records of extractLinks\<close>

text \<open>
  C6, as the claim states it, fails: it skips only the elements without an \<^verbatim>\<open>href\<close>
  attribute. The only element of \<^verbatim>\<open><a href="">x</a>\<close> has one, and
  \<open>extractLinks\<close> returns no record for it: the empty string is false in
  \<^verbatim>\<open>if (href)\<close>.
\<close>

theorem extractLinks_empty_href_counterexample:
  "load browser empty_href_doc ''a'' = Inr empty_href_nodes
   \<and> length (filter (\<lambda>e. attribs e ''href'' \<noteq> None) empty_href_nodes) = 1
   \<and> extractLinks browser empty_href_doc ''a'' ''https://h.example'' = Inr []"
  by (simp add: browser_empty_href extractLinks_def empty_href_nodes_def link_callback_cases
      nonempty_def)

text \<open>
  C6, amended. Let the selector match the elements \<open>es\<close>, and let the URL constructor
  accept every URL it is asked to resolve, returning a non-empty \<^verbatim>\<open>href\<close>. Then
  \<open>extractLinks\<close> returns one record per matched element whose \<^verbatim>\<open>href\<close> is
  non-empty, in document order: an element whose \<^verbatim>\<open>href\<close> is absent or empty is
  skipped; an \<^verbatim>\<open>href\<close> starting with \<^verbatim>\<open>/\<close> is replaced by the constructor's
  \<^verbatim>\<open>href\<close> for it and the base URL when the base URL is non-empty, and is left as it
  is when the base URL is empty; the text is the element's trimmed text content. In
  particular, when the only match of \<^verbatim>\<open>a\<close> in \<^verbatim>\<open><a href="/p">Hi</a>\<close> is that
  element and the constructor resolves \<^verbatim>\<open>/p\<close> against \<^verbatim>\<open>https://h.example\<close> to
  \<^verbatim>\<open>https://h.example/p\<close>, the result is exactly the record of the specification's
  example.
\<close>

theorem extractLinks_records:
  "(load L html sel = Inr es
      \<and> (\<forall>e\<in>set es. \<forall>u. nonempty (attribs e ''href'') = Some u \<and> startsWith u ''/'' \<and> base \<noteq> []
             \<longrightarrow> (\<exists>h. h \<noteq> [] \<and> new_url L u base = Inr h))
    \<longrightarrow> (\<exists>recs. extractLinks L html sel base = Inr recs
           \<and> list_all2 (link_of L base)
                (filter (\<lambda>e. nonempty (attribs e ''href'') \<noteq> None) es) recs))
   \<and> (load L a_doc ''a'' = Inr a_nodes
      \<and> new_url L ''/p'' ''https://h.example'' = Inr ''https://h.example/p''
    \<longrightarrow> extractLinks L a_doc ''a'' ''https://h.example''
          = Inr [\<lparr>link_url = ''https://h.example/p'', link_text = ''Hi''\<rparr>])"
proof (intro conjI impI)
  assume a: "load L html sel = Inr es
      \<and> (\<forall>e\<in>set es. \<forall>u. nonempty (attribs e ''href'') = Some u \<and> startsWith u ''/'' \<and> base \<noteq> []
             \<longrightarrow> (\<exists>h. h \<noteq> [] \<and> new_url L u base = Inr h))"
  then have "\<exists>recs. each (link_callback L base) es [] = Inr ([] @ recs)
           \<and> list_all2 (link_of L base) (filter (\<lambda>e. nonempty (attribs e ''href'') \<noteq> None) es) recs"
    by (intro each_links) blast
  with a show "\<exists>recs. extractLinks L html sel base = Inr recs
           \<and> list_all2 (link_of L base) (filter (\<lambda>e. nonempty (attribs e ''href'') \<noteq> None) es) recs"
    by (simp add: extractLinks_def)
next
  assume "load L a_doc ''a'' = Inr a_nodes
      \<and> new_url L ''/p'' ''https://h.example'' = Inr ''https://h.example/p''"
  then show "extractLinks L a_doc ''a'' ''https://h.example''
          = Inr [\<lparr>link_url = ''https://h.example/p'', link_text = ''Hi''\<rparr>]"
    by (simp add: extractLinks_def a_nodes_def link_callback_cases
        nonempty_def startsWith_def link_record_def trim_Hi)
qed

text \<open>
  Both parts at concrete inputs: a navigation bar of three anchors, of which the first
  has no \<^verbatim>\<open>href\<close> and the second a root-relative one, and the document of the example.
\<close>

theorem extractLinks_records_witness:
  "(\<exists>recs. extractLinks browser nav_doc ''a'' ''https://h.example'' = Inr recs
           \<and> list_all2 (link_of browser ''https://h.example'')
                (filter (\<lambda>e. nonempty (attribs e ''href'') \<noteq> None) nav_nodes) recs)
   \<and> extractLinks browser a_doc ''a'' ''https://h.example''
       = Inr [\<lparr>link_url = ''https://h.example/p'', link_text = ''Hi''\<rparr>]"
proof -
  have ok: "\<forall>e\<in>set nav_nodes. \<forall>u.
              nonempty (attribs e ''href'') = Some u \<and> startsWith u ''/'' \<and> ''https://h.example'' \<noteq> []
              \<longrightarrow> (\<exists>h. h \<noteq> [] \<and> new_url browser u ''https://h.example'' = Inr h)"
    by (simp add: nav_nodes_def nonempty_def startsWith_def browser_url_p)
  from extractLinks_records [of browser nav_doc "''a''" nav_nodes "''https://h.example''"]
    browser_nav browser_a browser_url_p ok
  show ?thesis by blast
qed

section \<open>No base URL\<close>

text \<open>
  C7. When the base URL argument is empty, \<open>extractImages\<close> and \<open>extractLinks\<close>
  put the URL attribute of each element into its record as it is, also when it starts
  with \<^verbatim>\<open>/\<close>, and no resolution is attempted: the result is the same whatever the
  URL constructor would do.
\<close>

theorem empty_base_passes_through:
  assumes "load L html sel = Inr es" and "load L html' sel' = Inr es'"
  shows "extractImages L html sel []
           = Inr (List.map_filter (\<lambda>e. map_option (image_record e) (source_url e)) es)
         \<and> extractLinks L html' sel' []
           = Inr (List.map_filter
                   (\<lambda>e. map_option (link_record e) (nonempty (attribs e ''href''))) es')
         \<and> extractImages (L\<lparr>new_url := f\<rparr>) html sel [] = extractImages L html sel []
         \<and> extractLinks (L\<lparr>new_url := f\<rparr>) html' sel' [] = extractLinks L html' sel' []"
  using assms
  by (simp add: extractImages_def extractLinks_def each_images_no_base each_links_no_base
      image_callback_new_url_update link_callback_new_url_update)

text \<open>The root-relative URLs of the gallery and of the navigation bar stay as they are.\<close>

theorem empty_base_passes_through_witness:
  "extractImages browser gallery_doc ''img'' []
     = Inr [\<lparr>url = ''b.png'', alt = [], width = None, height = None\<rparr>,
            \<lparr>url = ''/a.png'', alt = [], width = None, height = Some ''5''\<rparr>]
   \<and> extractLinks browser nav_doc ''a'' []
     = Inr [\<lparr>link_url = ''/p'', link_text = ''Hi''\<rparr>, \<lparr>link_url = ''q.html'', link_text = ''Q''\<rparr>]"
  using empty_base_passes_through [OF browser_gallery browser_nav]
  by (simp add: gallery_nodes_def nav_nodes_def List.map_filter_simps source_url_def nonempty_def
      image_record_def link_record_def trim_Hi_padded trim_Q)

section \<open>An empty src attribute\<close>

text \<open>
  C10. \<open>extractImages\<close> treats a \<^verbatim>\<open>src\<close> attribute that is the empty string as an
  absent one: removing the empty \<^verbatim>\<open>src\<close> attributes from the matched elements does
  not change the result, and an element with an empty \<^verbatim>\<open>src\<close> and a
  \<^verbatim>\<open>data-src\<close> gets its URL from \<^verbatim>\<open>data-src\<close>. An element whose \<^verbatim>\<open>src\<close> and
  \<^verbatim>\<open>data-src\<close> are both absent or empty is skipped: removing these elements from
  the node-set does not change the result. No record of the result has an empty URL.
\<close>

theorem empty_src_is_absent:
  "extractImages (L\<lparr>load := \<lambda>h s. map_sum id (map drop_empty_src) (load L h s)\<rparr>) html sel base
     = extractImages L html sel base
   \<and> extractImages
       (L\<lparr>load := \<lambda>h s. map_sum id (filter (\<lambda>e. source_url e \<noteq> None)) (load L h s)\<rparr>)
       html sel base
     = extractImages L html sel base
   \<and> (\<forall>recs. extractImages L html sel base = Inr recs \<longrightarrow> (\<forall>r\<in>set recs. url r \<noteq> []))
   \<and> (\<forall>e d. load L html sel = Inr [e] \<and> attribs e ''src'' = Some []
         \<and> attribs e ''data-src'' = Some d \<and> d \<noteq> [] \<and> \<not> startsWith d ''/''
       \<longrightarrow> extractImages L html sel base = Inr [image_record e d])"
proof (intro conjI allI impI)
  show "extractImages (L\<lparr>load := \<lambda>h s. map_sum id (map drop_empty_src) (load L h s)\<rparr>) html sel base
     = extractImages L html sel base"
    by (cases "load L html sel")
       (simp_all add: extractImages_def image_callback_load_update each_map_cong
          image_callback_drop_empty_src)
next
  have skip: "\<And>e acc. \<not> source_url e \<noteq> None \<Longrightarrow> image_callback L base e acc = Inr acc"
    by (simp add: image_callback_cases)
  show "extractImages
       (L\<lparr>load := \<lambda>h s. map_sum id (filter (\<lambda>e. source_url e \<noteq> None)) (load L h s)\<rparr>)
       html sel base
     = extractImages L html sel base"
    by (cases "load L html sel")
       (simp_all add: extractImages_def image_callback_load_update each_filter_skip skip)
next
  fix recs
  assume r: "extractImages L html sel base = Inr recs"
  then obtain es where "each (image_callback L base) es [] = Inr recs"
    by (auto simp: extractImages_def split: sum.splits)
  then show "\<forall>r\<in>set recs. url r \<noteq> []"
    by (rule each_invariant) (simp, rule image_callback_url_nonempty)
next
  fix e d
  assume "load L html sel = Inr [e] \<and> attribs e ''src'' = Some []
         \<and> attribs e ''data-src'' = Some d \<and> d \<noteq> [] \<and> \<not> startsWith d ''/''"
  then show "extractImages L html sel base = Inr [image_record e d]"
    by (simp add: extractImages_def image_callback_cases source_url_def nonempty_def)
qed

text \<open>
  The image of \<^verbatim>\<open><img src="" data-src="b.png">\<close> gets the URL \<^verbatim>\<open>b.png\<close>, and the
  image of \<^verbatim>\<open><img src="">\<close> gets no record.
\<close>

theorem empty_src_is_absent_witness:
  "extractImages browser lazy_doc ''img'' ''https://h.example/''
     = Inr [\<lparr>url = ''b.png'', alt = [], width = None, height = None\<rparr>]
   \<and> extractImages browser empty_src_doc ''img'' ''https://h.example/'' = Inr []"
proof -
  have "extractImages browser lazy_doc ''img'' ''https://h.example/''
          = Inr [image_record (hd lazy_nodes) ''b.png'']"
    using empty_src_is_absent [of browser lazy_doc "''img''" "''https://h.example/''"]
      browser_lazy
    by (simp add: lazy_nodes_def startsWith_def)
  moreover have "extractImages browser empty_src_doc ''img'' ''https://h.example/'' = Inr []"
    by (simp add: browser_empty_src extractImages_def empty_src_nodes_def image_callback_cases
        source_url_def nonempty_def)
  ultimately show ?thesis
    by (simp add: lazy_nodes_def image_record_def nonempty_def)
qed

section \<open>The keys of extractStructuredData\<close>

text \<open>
  C1, as the claim states it, fails. In the mapping
  \<^verbatim>\<open>{title: {selector: 'h1'}, body: {selector: '.missing', type: 'html'}}\<close> the first
  field has no mode tag, and the loop assigns nothing for it: the key \<^verbatim>\<open>title\<close> is not
  in the result. The selector of the second field matches nothing in \<^verbatim>\<open><h1>T</h1>\<close>,
  and its value is \<^verbatim>\<open>null\<close>, not the empty string.
\<close>

theorem extractStructuredData_keys_counterexample:
  "map_sum id (\<lambda>r. (r ''title'', r ''body''))
     (extractStructuredData browser h1_doc
        [(''title'', Obj (Some ''h1'') None None),
         (''body'', Obj (Some ''.missing'') (Some ''html'') None)])
   = Inr (None, Some JNull)"
  by (simp add: extractStructuredData_def assign_def field_value_def truthy_def query_def
      browser_missing html_of_def)

text \<open>
  C1, amended. For a mapping that has no key \<^verbatim>\<open>__proto__\<close> and whose selectors the
  query engine accepts, \<open>extractStructuredData\<close> raises no error, and the keys of its
  result are the keys of the fields that are a selector string or an object with a
  non-empty mode tag; an object without a mode tag gets no key. A field with a key whose selector matches no
  element has the value \<^verbatim>\<open>''\<close> (a selector string, mode \<^verbatim>\<open>text\<close>, or a mode tag that
  is none of the four), \<^verbatim>\<open>null\<close> (mode \<^verbatim>\<open>html\<close>), \<^verbatim>\<open>undefined\<close> (mode
  \<^verbatim>\<open>attr\<close>) or the empty list (mode \<^verbatim>\<open>list\<close>).
\<close>

theorem extractStructuredData_keys:
  assumes "distinct (map fst mapping)"
    and "''__proto__'' \<notin> fst ` set mapping"
    and "\<forall>(k, spec)\<in>set mapping.
           tagged spec \<longrightarrow> (\<exists>es. query (load L html) (field_selector spec) = Inr es)"
  shows "\<exists>r. extractStructuredData L html mapping = Inr r
           \<and> dom r = set (map fst (filter (\<lambda>(k, spec). tagged spec) mapping))
           \<and> (\<forall>(k, spec)\<in>set mapping.
                 tagged spec \<and> query (load L html) (field_selector spec) = Inr []
                 \<longrightarrow> r k = Some (empty_value spec))"
proof -
  have own: "k \<noteq> ''__proto__''" if "(k, spec) \<in> set mapping" for k spec
    using that assms(2) by force
  from assms(3) obtain r where r: "structured_fields (load L html) mapping Map.empty = Inr r"
    using structured_fields_ok by blast
  then have "dom r = dom (Map.empty :: string \<rightharpoonup> jsvalue)
                \<union> {k. \<exists>spec. (k, spec) \<in> set mapping \<and> tagged spec \<and> k \<noteq> ''__proto__''}"
    by (rule structured_fields_dom)
  with own have "dom r = {k. \<exists>spec. (k, spec) \<in> set mapping \<and> tagged spec}"
    by auto
  then have keys: "dom r = set (map fst (filter (\<lambda>(k, spec). tagged spec) mapping))"
    by force
  have "r k = Some (empty_value spec)"
    if "(k, spec) \<in> set mapping" "tagged spec"
      "query (load L html) (field_selector spec) = Inr []" for k spec
  proof -
    from that(2,3) have "field_value (load L html) spec = Inr (Some (empty_value spec))"
      by (rule field_value_no_match)
    with r assms(1) that(1) show ?thesis using own [OF that(1)]
      by (rule structured_fields_value)
  qed
  with r keys show ?thesis
    by (auto simp: extractStructuredData_def)
qed

text \<open>
  A mapping of four fields against \<^verbatim>\<open><h1>T</h1>\<close>: three get a key, two of them with
  a selector that matches nothing; the fourth has no mode tag.
\<close>

theorem extractStructuredData_keys_witness:
  "\<exists>r. extractStructuredData browser h1_doc
          [(''title'', Bare ''h1''), (''tags'', Obj (Some ''.missing'') (Some ''list'') None),
           (''body'', Obj (Some ''.missing'') (Some ''html'') None),
           (''note'', Obj (Some ''h1'') None None)] = Inr r
       \<and> dom r = {''title'', ''tags'', ''body''}
       \<and> r ''tags'' = Some (JArray []) \<and> r ''body'' = Some JNull"
proof -
  let ?m = "[(''title'', Bare ''h1''), (''tags'', Obj (Some ''.missing'') (Some ''list'') None),
           (''body'', Obj (Some ''.missing'') (Some ''html'') None),
           (''note'', Obj (Some ''h1'') None None)]"
  have d: "distinct (map fst ?m)" by simp
  have p: "''__proto__'' \<notin> fst ` set ?m" by simp
  have q: "\<forall>(k, spec)\<in>set ?m.
           tagged spec \<longrightarrow> (\<exists>es. query (load browser h1_doc) (field_selector spec) = Inr es)"
    by (simp add: tagged_def nonempty_def field_selector_def query_def browser_h1 browser_missing)
  from extractStructuredData_keys [OF d p q] obtain r where
    r: "extractStructuredData browser h1_doc ?m = Inr r"
    and k: "dom r = set (map fst (filter (\<lambda>(k, spec). tagged spec) ?m))"
    and v: "\<forall>(k, spec)\<in>set ?m.
                 tagged spec \<and> query (load browser h1_doc) (field_selector spec) = Inr []
                 \<longrightarrow> r k = Some (empty_value spec)"
    by blast
  from k have "dom r = {''title'', ''tags'', ''body''}"
    by (simp add: tagged_def nonempty_def)
  moreover from v have "r ''tags'' = Some (JArray [])" "r ''body'' = Some JNull"
    by (simp_all add: tagged_def nonempty_def field_selector_def query_def browser_missing
        empty_value_def)
  ultimately show ?thesis using r by blast
qed

section \<open>A field without a mode tag\<close>

text \<open>
  C2, as the claim states it, fails: against \<^verbatim>\<open><h1>T</h1>\<close> the field
  \<^verbatim>\<open>{selector: 'h1'}\<close> has no value in the result, while the same field with mode
  \<^verbatim>\<open>text\<close> has the value \<^verbatim>\<open>T\<close>. The branch for objects is guarded by
  \<^verbatim>\<open>typeof selector === 'object' && selector.type\<close> and has no \<^verbatim>\<open>else\<close>.
\<close>

theorem missing_mode_counterexample:
  "map_sum id (\<lambda>r. r ''title'')
     (extractStructuredData browser h1_doc [(''title'', Obj (Some ''h1'') None None)])
     = Inr None
   \<and> map_sum id (\<lambda>r. r ''title'')
       (extractStructuredData browser h1_doc [(''title'', Obj (Some ''h1'') (Some ''text'') None)])
     = Inr (Some (JString ''T''))"
  by (simp add: extractStructuredData_def assign_def field_value_def truthy_def text_value_def
      query_def browser_h1 h1_nodes_def text_of_def trim_T)

text \<open>
  C2, amended. A field given as an object with a selector but with no mode tag, or with
  the empty string as its mode tag, does not make \<open>extractStructuredData\<close> fail and
  is skipped: the result is that of the mapping without the field, and it has no entry
  for the field's key. A field whose mode tag is a non-empty string other than
  \<^verbatim>\<open>text\<close>, \<^verbatim>\<open>html\<close>, \<^verbatim>\<open>attr\<close> and \<^verbatim>\<open>list\<close> is treated as mode \<^verbatim>\<open>text\<close>,
  and the value of a field of mode \<^verbatim>\<open>text\<close> whose key is not \<^verbatim>\<open>__proto__\<close> is the
  trimmed text content of the node-set matched by its selector.
\<close>

theorem missing_mode_is_skipped:
  "extractStructuredData L html (m1 @ (k, Obj sel None name) # m2)
     = extractStructuredData L html (m1 @ m2)
   \<and> extractStructuredData L html (m1 @ (k, Obj sel (Some []) name) # m2)
     = extractStructuredData L html (m1 @ m2)
   \<and> (\<forall>r. k \<notin> fst ` set (m1 @ m2)
          \<and> extractStructuredData L html (m1 @ (k, Obj sel None name) # m2) = Inr r
        \<longrightarrow> r k = None)
   \<and> (\<forall>t. t \<noteq> [] \<and> t \<notin> {''text'', ''html'', ''attr'', ''list''}
        \<longrightarrow> extractStructuredData L html (m1 @ (k, Obj sel (Some t) name) # m2)
            = extractStructuredData L html (m1 @ (k, Obj sel (Some ''text'') name) # m2))
   \<and> (\<forall>es r. distinct (map fst (m1 @ (k, Obj sel (Some ''text'') name) # m2))
          \<and> k \<noteq> ''__proto__''
          \<and> query (load L html) sel = Inr es
          \<and> extractStructuredData L html (m1 @ (k, Obj sel (Some ''text'') name) # m2) = Inr r
        \<longrightarrow> r k = Some (JString (trim (text_of es))))"
proof (intro conjI allI impI)
  have none: "field_value (load L html) (Obj sel None name) = Inr None"
    by (simp add: field_value_untagged tagged_def nonempty_def)
  then show skip: "extractStructuredData L html (m1 @ (k, Obj sel None name) # m2)
     = extractStructuredData L html (m1 @ m2)"
    unfolding extractStructuredData_def by (rule structured_fields_drop)
  have "field_value (load L html) (Obj sel (Some []) name) = Inr None"
    by (simp add: field_value_untagged tagged_def nonempty_def)
  then show "extractStructuredData L html (m1 @ (k, Obj sel (Some []) name) # m2)
     = extractStructuredData L html (m1 @ m2)"
    unfolding extractStructuredData_def by (rule structured_fields_drop)
  fix r
  assume "k \<notin> fst ` set (m1 @ m2)
          \<and> extractStructuredData L html (m1 @ (k, Obj sel None name) # m2) = Inr r"
  with skip have "structured_fields (load L html) (m1 @ m2) Map.empty = Inr r"
    and "k \<notin> fst ` set (m1 @ m2)"
    by (simp_all add: extractStructuredData_def)
  then have "r k = Map.empty k" by (rule structured_fields_keep)
  then show "r k = None" by simp
next
  fix t :: string
  assume "t \<noteq> [] \<and> t \<notin> {''text'', ''html'', ''attr'', ''list''}"
  then have "field_value (load L html) (Obj sel (Some t) name)
               = field_value (load L html) (Obj sel (Some ''text'') name)"
    by (intro field_value_other) simp_all
  then show "extractStructuredData L html (m1 @ (k, Obj sel (Some t) name) # m2)
            = extractStructuredData L html (m1 @ (k, Obj sel (Some ''text'') name) # m2)"
    unfolding extractStructuredData_def by (rule structured_fields_replace)
next
  fix es r
  assume a: "distinct (map fst (m1 @ (k, Obj sel (Some ''text'') name) # m2))
          \<and> k \<noteq> ''__proto__''
          \<and> query (load L html) sel = Inr es
          \<and> extractStructuredData L html (m1 @ (k, Obj sel (Some ''text'') name) # m2) = Inr r"
  then have "field_value (load L html) (Obj sel (Some ''text'') name)
               = Inr (Some (JString (trim (text_of es))))"
    by (simp add: field_value_text)
  moreover from a have "structured_fields (load L html)
      (m1 @ (k, Obj sel (Some ''text'') name) # m2) Map.empty = Inr r"
    by (simp add: extractStructuredData_def)
  moreover from a have "distinct (map fst (m1 @ (k, Obj sel (Some ''text'') name) # m2))"
    by simp
  moreover have "(k, Obj sel (Some ''text'') name) \<in> set (m1 @ (k, Obj sel (Some ''text'') name) # m2)"
    by simp
  moreover from a have "k \<noteq> ''__proto__''" by simp
  ultimately show "r k = Some (JString (trim (text_of es)))"
    using structured_fields_value by blast
qed

text \<open>
  Against \<^verbatim>\<open><h1>T</h1>\<close>: the field \<^verbatim>\<open>{selector: 'h1'}\<close> alone gives the empty
  object, and the mode tag \<^verbatim>\<open>heading\<close> gives the text of the heading.
\<close>

theorem missing_mode_is_skipped_witness:
  "extractStructuredData browser h1_doc [(''title'', Obj (Some ''h1'') None None)] = Inr Map.empty
   \<and> map_sum id (\<lambda>r. r ''title'')
       (extractStructuredData browser h1_doc [(''title'', Obj (Some ''h1'') (Some ''heading'') None)])
     = Inr (Some (JString ''T''))"
proof -
  from missing_mode_is_skipped [of browser h1_doc "[]" "''title''" "Some ''h1''" None "[]"]
  have s: "extractStructuredData browser h1_doc [(''title'', Obj (Some ''h1'') None None)]
             = extractStructuredData browser h1_doc []"
    and t: "extractStructuredData browser h1_doc [(''title'', Obj (Some ''h1'') (Some ''heading'') None)]
             = extractStructuredData browser h1_doc [(''title'', Obj (Some ''h1'') (Some ''text'') None)]"
    by simp_all
  have "extractStructuredData browser h1_doc [] = Inr Map.empty"
    by (simp add: extractStructuredData_def)
  moreover have "map_sum id (\<lambda>r. r ''title'')
       (extractStructuredData browser h1_doc [(''title'', Obj (Some ''h1'') (Some ''text'') None)])
     = Inr (Some (JString ''T''))"
    by (simp add: extractStructuredData_def assign_def field_value_def truthy_def text_value_def
      query_def browser_h1 h1_nodes_def text_of_def trim_T)
  ultimately show ?thesis using s t by simp
qed

section \<open>Mode attr without an attribute name\<close>

text \<open>
  C3, as the claim states it, fails: the mapping
  \<^verbatim>\<open>{rating: {selector: '.missing', type: 'attr'}}\<close> has a field of mode \<^verbatim>\<open>attr\<close>
  with no attribute name, and \<open>extractStructuredData\<close> returns a result, in which
  \<^verbatim>\<open>rating\<close> is \<^verbatim>\<open>undefined\<close>. The method has no check of its mapping and raises
  nothing of its own.
\<close>

theorem attr_without_name_counterexample:
  "map_sum id (\<lambda>r. r ''rating'')
     (extractStructuredData browser h1_doc [(''rating'', Obj (Some ''.missing'') (Some ''attr'') None)])
   = Inr (Some JUndefined)"
  by (simp add: extractStructuredData_def assign_def field_value_def truthy_def query_def
      browser_missing attr_value_def)

text \<open>
  C3, amended. A field of mode \<^verbatim>\<open>attr\<close> with no attribute name, under a key other
  than \<^verbatim>\<open>__proto__\<close>, gets a normal value:
  when the query engine accepts the selectors of the mapping, \<open>extractStructuredData\<close>
  returns a result in which the field is \<^verbatim>\<open>undefined\<close> if its selector matches
  nothing, and otherwise what the attribute getter returns when it is called without a
  name, the attributes of the first matched element. \<open>extractStructuredData\<close> has no
  configuration error: whenever it fails, the error is the one the query engine raised
  on the selector of one of the fields.
\<close>

theorem attr_without_name_is_no_error:
  "(query (load L html) sel = Inr es \<and> k \<noteq> ''__proto__'' \<and> k \<notin> fst ` set m2
      \<and> (\<forall>(k', spec)\<in>set (m1 @ m2).
            tagged spec \<longrightarrow> (\<exists>es'. query (load L html) (field_selector spec) = Inr es'))
    \<longrightarrow> (\<exists>r. extractStructuredData L html (m1 @ (k, Obj sel (Some ''attr'') None) # m2) = Inr r
           \<and> r k = Some (case es of [] \<Rightarrow> JUndefined | e # _ \<Rightarrow> JObject (attribs e))))
   \<and> (\<forall>err. extractStructuredData L html mapping = Inl err
        \<longrightarrow> (\<exists>(k', spec)\<in>set mapping. query (load L html) (field_selector spec) = Inl err))"
proof (intro conjI allI impI)
  let ?f = "Obj sel (Some ''attr'') None"
  let ?v = "case es of [] \<Rightarrow> JUndefined | e # _ \<Rightarrow> JObject (attribs e)"
  assume a: "query (load L html) sel = Inr es \<and> k \<noteq> ''__proto__'' \<and> k \<notin> fst ` set m2
      \<and> (\<forall>(k', spec)\<in>set (m1 @ m2).
            tagged spec \<longrightarrow> (\<exists>es'. query (load L html) (field_selector spec) = Inr es'))"
  then have fv: "field_value (load L html) ?f = Inr (Some ?v)"
    by (simp add: field_value_attr_no_name)
  from a have "\<forall>(k', spec)\<in>set m1.
            tagged spec \<longrightarrow> (\<exists>es'. query (load L html) (field_selector spec) = Inr es')"
    by auto
  then obtain r1 where r1: "structured_fields (load L html) m1 Map.empty = Inr r1"
    using structured_fields_ok by blast
  from a have "\<forall>(k', spec)\<in>set m2.
            tagged spec \<longrightarrow> (\<exists>es'. query (load L html) (field_selector spec) = Inr es')"
    by auto
  then obtain r where r: "structured_fields (load L html) m2 (assign r1 k ?v) = Inr r"
    using structured_fields_ok by blast
  moreover from a have "k \<notin> fst ` set m2" by simp
  ultimately have "r k = assign r1 k ?v k" by (rule structured_fields_keep)
  with a have "r k = Some ?v" by (simp add: assign_same)
  moreover from r1 fv r have "extractStructuredData L html (m1 @ (k, ?f) # m2) = Inr r"
    by (simp add: extractStructuredData_def structured_fields_append)
  ultimately show "\<exists>r. extractStructuredData L html (m1 @ (k, ?f) # m2) = Inr r \<and> r k = Some ?v"
    by blast
next
  fix err
  assume "extractStructuredData L html mapping = Inl err"
  then show "\<exists>(k', spec)\<in>set mapping. query (load L html) (field_selector spec) = Inl err"
    unfolding extractStructuredData_def by (rule structured_fields_error)
qed

text \<open>The heading of \<^verbatim>\<open><h1>T</h1>\<close> has no attributes.\<close>

theorem attr_without_name_is_no_error_witness:
  "\<exists>r. extractStructuredData browser h1_doc [(''rating'', Obj (Some ''h1'') (Some ''attr'') None)] = Inr r
       \<and> r ''rating'' = Some (JObject Map.empty)"
  using attr_without_name_is_no_error
    [of browser h1_doc "Some ''h1''" h1_nodes "''rating''" "[]" "[]"]
  by (simp add: query_def browser_h1 h1_nodes_def)

section \<open>The two spellings of a text field\<close>

text \<open>
  C8. In any mapping, for any document, a field given as the selector string \<open>s\<close> and
  the same field given as \<^verbatim>\<open>{selector: s, type: 'text'}\<close> give the same result of
  \<open>extractStructuredData\<close>, hence the same value for the field's key (and the same
  error, if the selector is rejected).
\<close>

theorem bare_string_is_text_mode:
  "extractStructuredData L html (m1 @ (k, Bare s) # m2)
     = extractStructuredData L html (m1 @ (k, Obj (Some s) (Some ''text'') name) # m2)"
  unfolding extractStructuredData_def
  by (rule structured_fields_replace) (rule field_value_bare)

text \<open>Both spellings of the field \<^verbatim>\<open>title\<close> give \<^verbatim>\<open>T\<close> against \<^verbatim>\<open><h1>T</h1>\<close>.\<close>

theorem bare_string_is_text_mode_witness:
  "map_sum id (\<lambda>r. r ''title'') (extractStructuredData browser h1_doc [(''title'', Bare ''h1'')])
     = Inr (Some (JString ''T''))
   \<and> map_sum id (\<lambda>r. r ''title'')
       (extractStructuredData browser h1_doc [(''title'', Obj (Some ''h1'') (Some ''text'') None)])
     = Inr (Some (JString ''T''))"
proof -
  have "map_sum id (\<lambda>r. r ''title'') (extractStructuredData browser h1_doc [(''title'', Bare ''h1'')])
     = Inr (Some (JString ''T''))"
    by (simp add: extractStructuredData_def assign_def field_value_def truthy_def text_value_def
      query_def browser_h1 h1_nodes_def text_of_def trim_T)
  with bare_string_is_text_mode [of browser h1_doc "[]" "''title''" "''h1''" "[]" None]
  show ?thesis by simp
qed

section \<open>The mutators of the client's defaults\<close>

text \<open>
  C9. \<open>setHeaders\<close> merges its argument into the default headers: a header whose
  name is not in the argument keeps its value, a header in the argument takes the value
  given there, and the User-Agent that the constructor sets survives unless the
  constructor's options or the argument override it. \<open>setCookies\<close> changes exactly
  the \<^verbatim>\<open>Cookie\<close> header, to its argument. Neither changes the timeout or the
  credentials.
\<close>

theorem setHeaders_merges:
  "(\<forall>n. n \<notin> dom hs \<longrightarrow> headers (setHeaders c hs) n = headers c n)
   \<and> (\<forall>n. n \<in> dom hs \<longrightarrow> headers (setHeaders c hs) n = hs n)
   \<and> headers (setCookies c cookies) = (headers c)(''Cookie'' \<mapsto> cookies)
   \<and> timeout (setHeaders c hs) = timeout c \<and> auth (setHeaders c hs) = auth c
   \<and> timeout (setCookies c cookies) = timeout c \<and> auth (setCookies c cookies) = auth c
   \<and> (''User-Agent'' \<notin> dom hs \<and> ''User-Agent'' \<notin> dom (opt_headers opts)
        \<longrightarrow> headers (setHeaders (constructor opts) hs) ''User-Agent'' = Some default_user_agent)"
  by (auto simp: setHeaders_def setCookies_def constructor_def map_add_def split: option.splits)

text \<open>A client built with no options, then given a language header, then a cookie.\<close>

theorem setHeaders_merges_witness:
  "headers (setHeaders (constructor \<lparr>opt_timeout = None, opt_headers = Map.empty, opt_auth = None\<rparr>)
      [''Accept-Language'' \<mapsto> ''en'']) ''User-Agent'' = Some default_user_agent
   \<and> headers (setHeaders (constructor \<lparr>opt_timeout = None, opt_headers = Map.empty, opt_auth = None\<rparr>)
      [''Accept-Language'' \<mapsto> ''en'']) ''Accept-Language'' = Some ''en''
   \<and> headers (setCookies (constructor \<lparr>opt_timeout = None, opt_headers = Map.empty, opt_auth = None\<rparr>)
      ''sid=1'') ''Cookie'' = Some ''sid=1''
   \<and> timeout (setCookies (constructor \<lparr>opt_timeout = None, opt_headers = Map.empty, opt_auth = None\<rparr>)
      ''sid=1'') = 10000"
  using setHeaders_merges [of "[''Accept-Language'' \<mapsto> ''en'']"
      "constructor \<lparr>opt_timeout = None, opt_headers = Map.empty, opt_auth = None\<rparr>" "''sid=1''"
      "\<lparr>opt_timeout = None, opt_headers = Map.empty, opt_auth = None\<rparr>"]
  by (simp add: constructor_def)

end
